theory Spec2Isabelle
  imports Complex_Main "HOL-Library.Multiset"
begin

section \<open>The number type of the source\<close>

text \<open>
  Every \<^verbatim>\<open>number\<close> of the source, a quantity, a price or a sort key, is an IEEE 754
  binary64 value. A finite one is the rational it denotes; the two infinities and NaN are
  values of their own. The sign of zero is dropped: no operation of
  \<^verbatim>\<open>CartProvider.tsx\<close> tells \<^verbatim>\<open>-0\<close> from \<^verbatim>\<open>+0\<close> (both sums start from \<^verbatim>\<open>+0\<close>, and
  the sort only tests the sign of the comparator's result).
\<close>

datatype number = NaN | NegInf | Fin rat | PosInf

text \<open>
  \<open>ilog2 x\<close> is the binary exponent of a positive rational:
  \<open>2 powi ilog2 x \<le> x < 2 powi (ilog2 x + 1)\<close>.
\<close>

function ilog2 :: "rat \<Rightarrow> int" where
  "ilog2 x =
     (if x \<le> 0 then 0
      else if x < 1 then ilog2 (2 * x) - 1
      else if 2 \<le> x then ilog2 (x / 2) + 1
      else 0)"
  by pat_completeness auto
termination
proof (relation "measure (\<lambda>x. if x < 1 then nat \<lfloor>1 / x\<rfloor> + 1 else nat \<lfloor>x\<rfloor>)")
  show "wf (measure (\<lambda>x::rat. if x < 1 then nat \<lfloor>1 / x\<rfloor> + 1 else nat \<lfloor>x\<rfloor>))"
    by simp
next
  fix x :: rat
  assume a: "\<not> x \<le> 0" "x < 1"
  have one: "1 \<le> \<lfloor>1 / x\<rfloor>"
    using a by (simp add: le_floor_iff pos_le_divide_eq)
  have small: "nat \<lfloor>1 / (2 * x)\<rfloor> < nat \<lfloor>1 / x\<rfloor>"
  proof -
    have "\<lfloor>1 / (2 * x)\<rfloor> = \<lfloor>1 / x\<rfloor> div 2"
      by linarith
    then show ?thesis using one by linarith
  qed
  have big: "nat \<lfloor>2 * x\<rfloor> < nat \<lfloor>1 / x\<rfloor> + 1" if "\<not> 2 * x < 1"
  proof -
    have "\<lfloor>2 * x\<rfloor> = 1" using a that by linarith
    then show ?thesis using one by linarith
  qed
  show "(2 * x, x) \<in> measure (\<lambda>x. if x < 1 then nat \<lfloor>1 / x\<rfloor> + 1 else nat \<lfloor>x\<rfloor>)"
    using a small big by simp
next
  fix x :: rat
  assume a: "\<not> x \<le> 0" "\<not> x < 1" "2 \<le> x"
  have "nat \<lfloor>x / 2\<rfloor> < nat \<lfloor>x\<rfloor>"
    using a by linarith
  then show "(x / 2, x) \<in> measure (\<lambda>x. if x < 1 then nat \<lfloor>1 / x\<rfloor> + 1 else nat \<lfloor>x\<rfloor>)"
    using a by simp
qed

declare ilog2.simps [simp del]

text \<open>Rounding a rational to an integer, a tie going to the even neighbour.\<close>

definition rne :: "rat \<Rightarrow> int" where
  "rne y =
     (let f = \<lfloor>y\<rfloor>; d = y - of_int f
      in if d < 1 / 2 then f
         else if 1 / 2 < d then f + 1
         else if even f then f else f + 1)"

text \<open>
  \<open>round64 x\<close> is the binary64 value nearest to the rational \<open>x\<close> (roundTiesToEven): 53
  significant bits, exponents from \<open>-1022\<close> (below it the spacing of the subnormal
  numbers, \<open>2 powi (-1074)\<close>) to \<open>1023\<close>. A magnitude that rounds to \<open>2 ^ 1024\<close>
  (exponent \<open>1023\<close>, significand rounded up to \<open>2 ^ 53\<close>) or lies beyond it is infinite.
\<close>

definition round64 :: "rat \<Rightarrow> number" where
  "round64 x =
     (if x = 0 then Fin 0
      else
        let a = \<bar>x\<bar>;
            e = max (ilog2 a) (- 1022);
            u = 2 powi (e - 52);
            m = rne (a / u)
        in if 1024 \<le> e \<or> (e = 1023 \<and> m = 9007199254740992)
           then (if x < 0 then NegInf else PosInf)
           else Fin (if x < 0 then - (of_int m * u) else of_int m * u))"

fun num_neg :: "number \<Rightarrow> number" where
  "num_neg NaN = NaN"
| "num_neg NegInf = PosInf"
| "num_neg PosInf = NegInf"
| "num_neg (Fin a) = Fin (- a)"

fun num_add :: "number \<Rightarrow> number \<Rightarrow> number" where
  "num_add NaN _ = NaN"
| "num_add _ NaN = NaN"
| "num_add PosInf NegInf = NaN"
| "num_add NegInf PosInf = NaN"
| "num_add PosInf _ = PosInf"
| "num_add _ PosInf = PosInf"
| "num_add NegInf _ = NegInf"
| "num_add _ NegInf = NegInf"
| "num_add (Fin a) (Fin b) = round64 (a + b)"

definition num_sub :: "number \<Rightarrow> number \<Rightarrow> number" where
  "num_sub a b = num_add a (num_neg b)"

text \<open>The sign of a number that is not NaN: \<open>-1\<close>, \<open>0\<close> or \<open>1\<close>.\<close>

fun num_sgn :: "number \<Rightarrow> int" where
  "num_sgn NaN = 0"
| "num_sgn NegInf = - 1"
| "num_sgn PosInf = 1"
| "num_sgn (Fin a) = (if a < 0 then - 1 else if a = 0 then 0 else 1)"

fun num_mul :: "number \<Rightarrow> number \<Rightarrow> number" where
  "num_mul NaN _ = NaN"
| "num_mul _ NaN = NaN"
| "num_mul (Fin a) (Fin b) = round64 (a * b)"
| "num_mul a b =
     (if num_sgn a * num_sgn b = 0 then NaN
      else if num_sgn a * num_sgn b < 0 then NegInf else PosInf)"

text \<open>The relational operator \<^verbatim>\<open><=\<close> on numbers: false as soon as one side is NaN.\<close>

fun num_le :: "number \<Rightarrow> number \<Rightarrow> bool" where
  "num_le NaN _ = False"
| "num_le _ NaN = False"
| "num_le (Fin a) (Fin b) = (a \<le> b)"
| "num_le a b = (num_sgn a \<le> num_sgn b)"

section \<open>Strings read as numbers\<close>

text \<open>
  A string of the source is a sequence of code units; the model's \<open>string\<close> holds the
  code units below 256. \<open>slice s start\<close> is \<^verbatim>\<open>s.slice(start)\<close>: a negative start counts
  from the end, and both ends are clamped to the string.
\<close>

definition slice :: "string \<Rightarrow> int \<Rightarrow> string" where
  "slice s start =
     (let len = int (length s);
          from = (if start < 0 then max (len + start) 0 else min start len)
      in drop (nat from) s)"

text \<open>
  \<open>Number_of_string\<close> is \<^verbatim>\<open>Number(s)\<close> on a string, the StringToNumber of ECMAScript:
  white space around the literal is skipped, the empty string is \<open>0\<close>, a signed decimal
  literal (with an optional fraction and exponent) or \<^verbatim>\<open>Infinity\<close>, or an unsigned
  binary, octal or hexadecimal integer is its value rounded to binary64, and any other
  text is NaN.
\<close>

definition is_StrWhiteSpaceChar :: "char \<Rightarrow> bool" where
  "is_StrWhiteSpaceChar c = ((of_char c :: nat) \<in> set [9, 10, 11, 12, 13, 32, 160])"

definition is_DecimalDigit :: "char \<Rightarrow> bool" where
  "is_DecimalDigit c = (48 \<le> (of_char c :: nat) \<and> (of_char c :: nat) \<le> 57)"

text \<open>The value of a digit in a base up to 16, if the character is a digit of that base.\<close>

definition digit_in_base :: "nat \<Rightarrow> char \<Rightarrow> nat option" where
  "digit_in_base b c =
     (let n = (of_char c :: nat);
          v = (if 48 \<le> n \<and> n \<le> 57 then n - 48
               else if 97 \<le> n \<and> n \<le> 102 then n - 87
               else if 65 \<le> n \<and> n \<le> 70 then n - 55
               else 16)
      in if v < b then Some v else None)"

fun digits_in_base :: "nat \<Rightarrow> nat \<Rightarrow> string \<Rightarrow> nat option" where
  "digits_in_base b acc [] = Some acc"
| "digits_in_base b acc (c # cs) =
     (case digit_in_base b c of
        None \<Rightarrow> None
      | Some v \<Rightarrow> digits_in_base b (b * acc + v) cs)"

text \<open>A non-empty run of digits of base \<open>b\<close> and nothing else.\<close>

definition integer_in_base :: "nat \<Rightarrow> string \<Rightarrow> nat option" where
  "integer_in_base b s = (if s = [] then None else digits_in_base b 0 s)"

text \<open>ExponentPart, or nothing: the exponent, \<open>None\<close> when the text is neither.\<close>

definition ExponentPart :: "string \<Rightarrow> int option" where
  "ExponentPart s =
     (case s of
        [] \<Rightarrow> Some 0
      | c # r \<Rightarrow>
          if c = CHR ''e'' \<or> c = CHR ''E'' then
            (case r of
               [] \<Rightarrow> None
             | d # ds \<Rightarrow>
                 if d = CHR ''+'' then map_option int (integer_in_base 10 ds)
                 else if d = CHR ''-'' then map_option (\<lambda>n. - int n) (integer_in_base 10 ds)
                 else map_option int (integer_in_base 10 r))
          else None)"

definition StrUnsignedDecimalLiteral :: "string \<Rightarrow> number" where
  "StrUnsignedDecimalLiteral s =
     (if s = ''Infinity'' then PosInf
      else
        let ip = takeWhile is_DecimalDigit s;
            r1 = dropWhile is_DecimalDigit s;
            dot = (case r1 of [] \<Rightarrow> False | c # _ \<Rightarrow> c = CHR ''.'');
            fp = (if dot then takeWhile is_DecimalDigit (tl r1) else []);
            r2 = (if dot then dropWhile is_DecimalDigit (tl r1) else r1)
        in if ip = [] \<and> fp = [] then NaN
           else
             (case (digits_in_base 10 0 (ip @ fp), ExponentPart r2) of
                (Some m, Some e) \<Rightarrow> round64 (of_nat m * 10 powi (e - int (length fp)))
              | _ \<Rightarrow> NaN))"

definition NonDecimalIntegerLiteral :: "nat \<Rightarrow> string \<Rightarrow> number" where
  "NonDecimalIntegerLiteral b s =
     (case integer_in_base b s of None \<Rightarrow> NaN | Some m \<Rightarrow> round64 (of_nat m))"

definition Number_of_string :: "string \<Rightarrow> number" where
  "Number_of_string s =
     (let t = rev (dropWhile is_StrWhiteSpaceChar (rev (dropWhile is_StrWhiteSpaceChar s)))
      in case t of
           [] \<Rightarrow> Fin 0
         | c # r \<Rightarrow>
             if c = CHR ''+'' then StrUnsignedDecimalLiteral r
             else if c = CHR ''-'' then num_neg (StrUnsignedDecimalLiteral r)
             else if c = CHR ''0'' \<and> r \<noteq> [] \<and> hd r \<in> set ''xX''
               then NonDecimalIntegerLiteral 16 (tl r)
             else if c = CHR ''0'' \<and> r \<noteq> [] \<and> hd r \<in> set ''oO''
               then NonDecimalIntegerLiteral 8 (tl r)
             else if c = CHR ''0'' \<and> r \<noteq> [] \<and> hd r \<in> set ''bB''
               then NonDecimalIntegerLiteral 2 (tl r)
             else StrUnsignedDecimalLiteral t)"

section \<open>Currency text\<close>

text \<open>
  \<open>format_currency\<close> is
  \<^verbatim>\<open>new Intl.NumberFormat('en-US', { style: 'currency', currency: 'USD' }).format\<close>
  as ECMA-402 defines it: the magnitude of a finite number rounded to two fraction digits
  (a tie away from zero), the integer digits in groups of three, a dollar sign in front
  and a minus sign before it for a negative number; NaN prints as \<^verbatim>\<open>$NaN\<close>. The text for
  the infinities has a character beyond the model's strings: the result is \<open>None\<close> there.
  An engine that rounds the shortest decimal text of the number, not its exact value,
  prints another last digit at values such as 1.005, and rounds the digits of a very large
  number; the sums formatted in the theorems below are away from both.
\<close>

fun decimal_digits :: "nat \<Rightarrow> string" where
  "decimal_digits n =
     (if n < 10 then [char_of (48 + n)]
      else decimal_digits (n div 10) @ [char_of (48 + n mod 10)])"

declare decimal_digits.simps [simp del]

text \<open>Grouping works on the reversed digits: a comma after every third digit that has a successor.\<close>

fun group_rev :: "string \<Rightarrow> string" where
  "group_rev (a # b # c # d # r) = a # b # c # CHR '','' # group_rev (d # r)"
| "group_rev ds = ds"

definition format_currency :: "number \<Rightarrow> string option" where
  "format_currency v =
     (case v of
        Fin x \<Rightarrow>
          let n = nat \<lfloor>\<bar>x\<bar> * 100 + 1 / 2\<rfloor>;
              int_part = rev (group_rev (rev (decimal_digits (n div 100))));
              frac_part = [char_of (48 + (n mod 100) div 10), char_of (48 + n mod 10)]
          in Some ((if x < 0 then ''-'' else []) @ ''$'' @ int_part @ ''.'' @ frac_part)
      | NaN \<Rightarrow> Some ''$NaN''
      | _ \<Rightarrow> None)"

section \<open>The cart\<close>

text \<open>
  \<^verbatim>\<open>CartItemType\<close>, \<^verbatim>\<open>CartStateType\<close> and \<^verbatim>\<open>ReducerAction\<close> as the source declares them.
  \<^verbatim>\<open>price\<close> and \<^verbatim>\<open>qty\<close> are both \<^verbatim>\<open>number\<close>: a quantity is a binary64 value as well,
  exact on the integers up to \<open>2 ^ 53\<close> and rounded beyond.
\<close>

record CartItemType =
  sku :: string
  name :: string
  price :: number
  qty :: number

record CartStateType =
  cart :: "CartItemType list"

definition initCartState :: CartStateType where
  "initCartState = \<lparr>cart = []\<rparr>"

record ReducerAction =
  type :: string
  payload :: "CartItemType option"

definition ADD :: string where "ADD = ''ADD''"
definition REMOVE :: string where "REMOVE = ''REMOVE''"
definition QUANTITY :: string where "QUANTITY = ''QUANTITY''"
definition SUBMIT :: string where "SUBMIT = ''SUBMIT''"

text \<open>A thrown \<^verbatim>\<open>Error\<close>, with its message.\<close>

datatype error = Error string

text \<open>
  The reducer. It builds the next state from fresh arrays (\<^verbatim>\<open>filter\<close>, \<^verbatim>\<open>find\<close> and the
  spread allocate and assign nothing into \<^verbatim>\<open>state\<close>), so it is a function of its two
  arguments: \<open>Inr\<close> the state it returns, \<open>Inl\<close> the error it throws.
\<close>

definition reducer :: "CartStateType \<Rightarrow> ReducerAction \<Rightarrow> error + CartStateType" where
  "reducer state action =
     (if type action = ADD then
        (case payload action of
           None \<Rightarrow> Inl (Error ''action.payload missing in ADD action'')
         | Some p \<Rightarrow>
             let filteredCart = filter (\<lambda>item. sku item \<noteq> sku p) (cart state);
                 itemExists = find (\<lambda>item. sku item = sku p) (cart state);
                 qty = (case itemExists of Some item \<Rightarrow> num_add (qty item) (Fin 1) | None \<Rightarrow> Fin 1)
             in Inr (state\<lparr>cart := filteredCart @
                  [\<lparr>sku = sku p, name = name p, price = price p, qty = qty\<rparr>]\<rparr>))
      else if type action = REMOVE then
        (case payload action of
           None \<Rightarrow> Inl (Error ''action.payload missing in REMOVE action'')
         | Some p \<Rightarrow>
             let filteredCart = filter (\<lambda>item. sku item \<noteq> sku p) (cart state)
             in Inr (state\<lparr>cart := filteredCart\<rparr>))
      else if type action = QUANTITY then
        (case payload action of
           None \<Rightarrow> Inl (Error ''action.payload missing in QUANTITY action'')
         | Some p \<Rightarrow>
             (case find (\<lambda>item. sku item = sku p) (cart state) of
                None \<Rightarrow> Inl (Error ''Item must exist in order to update quantity'')
              | Some itemExists \<Rightarrow>
                  let updatedItem = itemExists\<lparr>qty := qty p\<rparr>;
                      filteredCart = filter (\<lambda>item. sku item \<noteq> sku p) (cart state)
                  in Inr (state\<lparr>cart := filteredCart @ [updatedItem]\<rparr>)))
      else if type action = SUBMIT then Inr (state\<lparr>cart := []\<rparr>)
      else Inl (Error ''Unidentified reducer action type''))"

section \<open>The hook\<close>

text \<open>
  \<^verbatim>\<open>Array.prototype.sort\<close> with a comparator. ECMAScript asks for a stable sort, treats a
  NaN result of the comparator as \<open>0\<close>, and fixes the outcome whenever the comparator is
  consistent; the order is left to the engine otherwise. The model is insertion sort: an
  element moves behind its right neighbours as long as the comparator is positive.
\<close>

fun num_positive :: "number \<Rightarrow> bool" where
  "num_positive PosInf = True"
| "num_positive (Fin a) = (0 < a)"
| "num_positive _ = False"

fun sort_insert :: "('a \<Rightarrow> 'a \<Rightarrow> number) \<Rightarrow> 'a \<Rightarrow> 'a list \<Rightarrow> 'a list" where
  "sort_insert comparefn x [] = [x]"
| "sort_insert comparefn x (y # ys) =
     (if num_positive (comparefn x y) then y # sort_insert comparefn x ys else x # y # ys)"

fun array_sort :: "('a \<Rightarrow> 'a \<Rightarrow> number) \<Rightarrow> 'a list \<Rightarrow> 'a list" where
  "array_sort comparefn [] = []"
| "array_sort comparefn (x # xs) = sort_insert comparefn x (array_sort comparefn xs)"

text \<open>The comparator of the hook: the difference of the numbers read from the last four characters.\<close>

definition sku_number :: "CartItemType \<Rightarrow> number" where
  "sku_number a = Number_of_string (slice (sku a) (- 4))"

definition compare_sku :: "CartItemType \<Rightarrow> CartItemType \<Rightarrow> number" where
  "compare_sku a b = num_sub (sku_number a) (sku_number b)"

text \<open>
  What one call of \<^verbatim>\<open>useCartContext\<close> hands to the views (\<^verbatim>\<open>dispatch\<close> and
  \<^verbatim>\<open>REDUCER_ACTIONS\<close> carry no data). The field \<^verbatim>\<open>cart\<close> of the source is \<open>cart_view\<close>.
\<close>

record UseCartContextType =
  totalItems :: number
  totalPrice :: "string option"
  cart_view :: "CartItemType list"

text \<open>
  One call of the hook on the state that \<^verbatim>\<open>useReducer\<close> holds. The two sums are taken
  first, over the array as it stands. Then \<^verbatim>\<open>state.cart.sort(...)\<close> sorts the array of the
  state in place and returns that same array: the second component is the state the
  call leaves behind.
\<close>

definition useCartContext :: "CartStateType \<Rightarrow> UseCartContextType \<times> CartStateType" where
  "useCartContext state =
     (let totalItems = foldl (\<lambda>previousValue cartItem. num_add previousValue (qty cartItem))
            (Fin 0) (cart state);
          totalPrice = format_currency
            (foldl (\<lambda>previousValue cartItem.
                      num_add previousValue (num_mul (qty cartItem) (price cartItem)))
               (Fin 0) (cart state));
          sorted_cart = array_sort compare_sku (cart state)
      in (\<lparr>totalItems = totalItems, totalPrice = totalPrice, cart_view = sorted_cart\<rparr>,
          state\<lparr>cart := sorted_cart\<rparr>))"

text \<open>
  What can happen to the stored state: an action is dispatched and the reducer returns
  the next state, or the component renders and the hook runs on the state. A run stops
  at the first error.
\<close>

datatype event = Dispatch ReducerAction | Render

fun run :: "CartStateType \<Rightarrow> event list \<Rightarrow> error + CartStateType" where
  "run state [] = Inr state"
| "run state (Dispatch action # evs) =
     (case reducer state action of Inl e \<Rightarrow> Inl e | Inr state' \<Rightarrow> run state' evs)"
| "run state (Render # evs) = run (snd (useCartContext state)) evs"

section \<open>Auxiliary predicates\<close>

text \<open>
  The binary64 values are the multiples of the least subnormal number, \<open>2 powi emin\<close>, that
  rounding can produce.
\<close>

definition emin :: int where
  "emin = - 1074"

definition is_binary64 :: "rat \<Rightarrow> bool" where
  "is_binary64 r = (of_int \<lfloor>r / 2 powi emin\<rfloor> = r / 2 powi emin)"

fun num_finite :: "number \<Rightarrow> bool" where
  "num_finite (Fin a) = True"
| "num_finite _ = False"

text \<open>The sort key of a line as a rational, for a line whose key is a finite number.\<close>

definition sku_key :: "CartItemType \<Rightarrow> rat" where
  "sku_key a = (case sku_number a of Fin r \<Rightarrow> r | _ \<Rightarrow> 0)"

text \<open>The number a run of decimal digits denotes.\<close>

definition decimal_value :: "string \<Rightarrow> nat" where
  "decimal_value s = foldl (\<lambda>v c. 10 * v + (of_char c - 48)) 0 s"

text \<open>An ADD action with a payload for the sku \<open>s\<close>.\<close>

definition is_ADD_of :: "string \<Rightarrow> ReducerAction \<Rightarrow> bool" where
  "is_ADD_of s a = (type a = ADD \<and> (case payload a of None \<Rightarrow> False | Some p \<Rightarrow> sku p = s))"



section \<open>The reducer, case by case\<close>

lemma action_names_distinct:
  "ADD \<noteq> REMOVE" "ADD \<noteq> QUANTITY" "ADD \<noteq> SUBMIT" "REMOVE \<noteq> QUANTITY" "REMOVE \<noteq> SUBMIT"
  "QUANTITY \<noteq> SUBMIT" "REMOVE \<noteq> ADD" "QUANTITY \<noteq> ADD" "SUBMIT \<noteq> ADD" "QUANTITY \<noteq> REMOVE"
  "SUBMIT \<noteq> REMOVE" "SUBMIT \<noteq> QUANTITY"
  by (simp_all add: ADD_def REMOVE_def QUANTITY_def SUBMIT_def)

lemma reducer_ADD:
  "type action = ADD \<Longrightarrow> payload action = Some p \<Longrightarrow> reducer state action =
     Inr (state\<lparr>cart := filter (\<lambda>item. sku item \<noteq> sku p) (cart state) @
       [\<lparr>sku = sku p, name = name p, price = price p,
         qty = (case find (\<lambda>item. sku item = sku p) (cart state) of
                  Some item \<Rightarrow> num_add (qty item) (Fin 1) | None \<Rightarrow> Fin 1)\<rparr>]\<rparr>)"
  by (simp add: reducer_def Let_def)

lemma reducer_REMOVE:
  "type action = REMOVE \<Longrightarrow> payload action = Some p \<Longrightarrow> reducer state action =
     Inr (state\<lparr>cart := filter (\<lambda>item. sku item \<noteq> sku p) (cart state)\<rparr>)"
  by (simp add: reducer_def action_names_distinct)

lemma reducer_QUANTITY:
  "type action = QUANTITY \<Longrightarrow> payload action = Some p \<Longrightarrow> reducer state action =
     (case find (\<lambda>item. sku item = sku p) (cart state) of
        None \<Rightarrow> Inl (Error ''Item must exist in order to update quantity'')
      | Some itemExists \<Rightarrow>
          Inr (state\<lparr>cart := filter (\<lambda>item. sku item \<noteq> sku p) (cart state) @
                 [itemExists\<lparr>qty := qty p\<rparr>]\<rparr>))"
  by (simp add: reducer_def action_names_distinct Let_def split: option.split)

lemma reducer_SUBMIT:
  "type action = SUBMIT \<Longrightarrow> reducer state action = Inr (state\<lparr>cart := []\<rparr>)"
  by (simp add: reducer_def action_names_distinct)

lemma find_sku_SomeD:
  "find (\<lambda>item. sku item = s) xs = Some x \<Longrightarrow> x \<in> set xs \<and> sku x = s"
  by (auto simp: find_Some_iff)

section \<open>The sort keeps the lines\<close>

lemma mset_sort_insert: "mset (sort_insert c x ys) = add_mset x (mset ys)"
  by (induction ys) auto

lemma mset_array_sort: "mset (array_sort c xs) = mset xs"
  by (induction xs) (auto simp: mset_sort_insert)


lemma state_after_hook:
  "snd (useCartContext state) = state\<lparr>cart := array_sort compare_sku (cart state)\<rparr>"
  by (simp add: useCartContext_def Let_def)

lemma cart_after_hook: "cart (snd (useCartContext state)) = array_sort compare_sku (cart state)"
  by (simp add: state_after_hook)

section \<open>Rounding to binary64\<close>

lemma pow2_pos: "0 < (2::rat) powi k"
  by (simp add: zero_less_power_int)

lemma pow2_half: "(2::rat) powi (k - 1) = 2 powi k / 2"
  by (simp add: power_int_diff)

lemma pow2_double: "(2::rat) powi (k + 1) = 2 powi k * 2"
  by (simp add: power_int_add)

lemma pow2_mono: "j \<le> k \<Longrightarrow> (2::rat) powi j \<le> 2 powi k"
  by (simp add: power_int_increasing)

lemma ilog2_lower: "0 < x \<Longrightarrow> 2 powi (ilog2 x) \<le> x"
proof (induction x rule: ilog2.induct)
  case (1 x)
  show ?case
  proof (cases "x < 1")
    case True
    with 1 have "2 powi (ilog2 (2 * x)) \<le> 2 * x" by simp
    moreover have "ilog2 x = ilog2 (2 * x) - 1"
      using True 1(3) by (subst ilog2.simps) simp
    ultimately show ?thesis by (simp add: pow2_half)
  next
    case False
    show ?thesis
    proof (cases "2 \<le> x")
      case True
      with 1 False have "2 powi (ilog2 (x / 2)) \<le> x / 2" by simp
      moreover have "ilog2 x = ilog2 (x / 2) + 1"
        using True False 1(3) by (subst ilog2.simps) simp
      ultimately show ?thesis by (simp add: pow2_double)
    next
      case F2: False
      have "ilog2 x = 0"
        using False F2 by (subst ilog2.simps) simp
      then show ?thesis using False by simp
    qed
  qed
qed

lemma ilog2_upper: "0 < x \<Longrightarrow> x < 2 powi (ilog2 x + 1)"
proof (induction x rule: ilog2.induct)
  case (1 x)
  show ?case
  proof (cases "x < 1")
    case True
    with 1 have "2 * x < 2 powi (ilog2 (2 * x) + 1)" by simp
    then have "2 * x < 2 powi (ilog2 (2 * x)) * 2" by (simp only: pow2_double)
    then have "x < 2 powi (ilog2 (2 * x))" by simp
    moreover have "ilog2 x + 1 = ilog2 (2 * x)"
      using True 1(3) by (subst ilog2.simps) simp
    ultimately show ?thesis by (simp only:)
  next
    case False
    show ?thesis
    proof (cases "2 \<le> x")
      case True
      with 1 False have "x / 2 < 2 powi (ilog2 (x / 2) + 1)" by simp
      then have "x < 2 powi (ilog2 (x / 2) + 1) * 2" by simp
      then have "x < 2 powi (ilog2 (x / 2) + 1 + 1)" by (simp only: pow2_double)
      moreover have "ilog2 x = ilog2 (x / 2) + 1"
        using True False 1(3) by (subst ilog2.simps) simp
      ultimately show ?thesis by (simp only:)
    next
      case F2: False
      have "ilog2 x = 0"
        using False F2 by (subst ilog2.simps) simp
      then show ?thesis using F2 by simp
    qed
  qed
qed

lemma rne_ge_floor: "\<lfloor>y\<rfloor> \<le> rne y"
  by (simp add: rne_def Let_def)

lemma rne_pos: "1 \<le> y \<Longrightarrow> 1 \<le> rne y"
  using rne_ge_floor [of y] by (smt (verit) le_floor_iff of_int_1)

lemma rne_nonneg: "0 \<le> y \<Longrightarrow> 0 \<le> rne y"
  using rne_ge_floor [of y] by (smt (verit) zero_le_floor)

lemma pow2_ratio: "(2::rat) powi j / 2 powi k = 2 powi (j - k)"
  by (subst power_int_diff) simp_all

lemma is_binary64_iff: "is_binary64 r = (\<exists>k::int. r = of_int k * 2 powi emin)"
proof -
  have nz: "(2::rat) powi emin \<noteq> 0"
    using pow2_pos [of emin] by simp
  have "is_binary64 r = (\<exists>k::int. r / 2 powi emin = of_int k)"
    by (simp add: is_binary64_def)
  also have "\<dots> = (\<exists>k::int. r = of_int k * 2 powi emin)"
    using nz by (simp add: nonzero_divide_eq_eq)
  finally show ?thesis .
qed

lemma scaled_is_binary64:
  assumes "- 1022 \<le> e"
  shows "is_binary64 (of_int m * 2 powi (e - 52))" "is_binary64 (- (of_int m * 2 powi (e - 52)))"
proof -
  have e: "e - 52 = (e + 1022) + emin" "0 \<le> e + 1022"
    using assms by (simp_all add: emin_def)
  have "(2::rat) powi (e - 52) = 2 powi (e + 1022) * 2 powi emin"
    by (subst e(1)) (simp add: power_int_add)
  also have "(2::rat) powi (e + 1022) = 2 ^ nat (e + 1022)"
    using e(2) by (simp add: power_int_def)
  finally have p: "(2::rat) powi (e - 52) = of_int (2 ^ nat (e + 1022)) * 2 powi emin"
    by simp
  have "of_int m * (2::rat) powi (e - 52) = of_int (m * 2 ^ nat (e + 1022)) * 2 powi emin"
    by (subst p) simp
  then show "is_binary64 (of_int m * 2 powi (e - 52))"
    unfolding is_binary64_iff by blast
  have "- (of_int m * (2::rat) powi (e - 52)) = of_int (- m * 2 ^ nat (e + 1022)) * 2 powi emin"
    by (subst p) simp
  then show "is_binary64 (- (of_int m * 2 powi (e - 52)))"
    unfolding is_binary64_iff by blast
qed

lemma round64_nonzero:
  assumes "x \<noteq> 0"
  defines "e \<equiv> max (ilog2 \<bar>x\<bar>) (- 1022)"
  defines "m \<equiv> rne (\<bar>x\<bar> / 2 powi (e - 52))"
  shows "round64 x =
     (if 1024 \<le> e \<or> (e = 1023 \<and> m = 9007199254740992)
      then (if x < 0 then NegInf else PosInf)
      else Fin (if x < 0 then - (of_int m * 2 powi (e - 52)) else of_int m * 2 powi (e - 52)))"
  unfolding round64_def e_def m_def Let_def using assms(1) by (simp only: if_False)

lemma round64_is_binary64: "round64 x = Fin r \<Longrightarrow> is_binary64 r"
proof (cases "x = 0")
  case True
  assume "round64 x = Fin r"
  with True show ?thesis by (simp add: round64_def is_binary64_def)
next
  case False
  assume r: "round64 x = Fin r"
  define e where "e = max (ilog2 \<bar>x\<bar>) (- 1022)"
  define m where "m = rne (\<bar>x\<bar> / 2 powi (e - 52))"
  have e: "- 1022 \<le> e" by (simp add: e_def)
  from r have "r = of_int m * 2 powi (e - 52) \<or> r = - (of_int m * 2 powi (e - 52))"
    unfolding round64_nonzero [OF False] e_def [symmetric] m_def [symmetric]
    by (auto split: if_splits)
  then show ?thesis using scaled_is_binary64 [OF e] by auto
qed

lemma round64_positive:
  assumes "0 < x" and "2 powi emin \<le> x"
  shows "num_positive (round64 x)"
proof -
  define e where "e = max (ilog2 \<bar>x\<bar>) (- 1022)"
  define u :: rat where "u = 2 powi (e - 52)"
  define m where "m = rne (\<bar>x\<bar> / u)"
  have u: "0 < u" by (simp add: u_def pow2_pos)
  have "u \<le> x"
  proof (cases "- 1022 \<le> ilog2 \<bar>x\<bar>")
    case True
    then have "e = ilog2 x" using assms(1) by (simp add: e_def)
    then have "u \<le> 2 powi (ilog2 x)" by (simp add: u_def pow2_mono)
    then show ?thesis using ilog2_lower [OF assms(1)] by simp
  next
    case False
    then have "e - 52 = emin" by (simp add: e_def emin_def)
    then have "u = 2 powi emin" by (simp only: u_def)
    then show ?thesis using assms(2) by simp
  qed
  then have "1 \<le> \<bar>x\<bar> / u" using u assms(1) by (simp add: pos_le_divide_eq)
  then have "1 \<le> m" unfolding m_def by (rule rne_pos)
  then have pos: "0 < of_int m * u" using u by simp
  have "x \<noteq> 0" using assms(1) by simp
  from round64_nonzero [OF this]
  have "round64 x = PosInf \<or> round64 x = Fin (of_int m * u)"
    unfolding e_def [symmetric] u_def [symmetric] m_def [symmetric] using assms(1)
    by (auto split: if_splits)
  then show ?thesis using pos by auto
qed

lemma round64_not_positive:
  assumes "x \<le> 0"
  shows "\<not> num_positive (round64 x)"
proof (cases "x = 0")
  case True
  then show ?thesis by (simp add: round64_def)
next
  case False
  define e where "e = max (ilog2 \<bar>x\<bar>) (- 1022)"
  define u :: rat where "u = 2 powi (e - 52)"
  define m where "m = rne (\<bar>x\<bar> / u)"
  have u: "0 < u" by (simp add: u_def pow2_pos)
  then have "0 \<le> \<bar>x\<bar> / u" by simp
  then have "0 \<le> m" unfolding m_def by (rule rne_nonneg)
  then have nonneg: "0 \<le> of_int m * u" using u by simp
  have neg: "x < 0" using assms False by simp
  from round64_nonzero [OF False]
  have "round64 x = NegInf \<or> round64 x = Fin (- (of_int m * u))"
    unfolding e_def [symmetric] u_def [symmetric] m_def [symmetric] using neg
    by (auto split: if_splits)
  then show ?thesis using nonneg by auto
qed

lemma binary64_difference:
  assumes "is_binary64 a" and "is_binary64 b" and "b < a"
  shows "2 powi emin \<le> a - b"
proof -
  obtain i j :: int where ij: "a = of_int i * 2 powi emin" "b = of_int j * 2 powi emin"
    using assms(1,2) unfolding is_binary64_iff by blast
  have p: "(0::rat) < 2 powi emin" by (rule pow2_pos)
  have "of_int j * (2::rat) powi emin < of_int i * 2 powi emin"
    using assms(3) ij by simp
  then have "(of_int j :: rat) < of_int i"
    using p by (simp only: mult_less_cancel_right_pos)
  then have "j + 1 \<le> i" by simp
  then have "(1::rat) \<le> of_int (i - j)"
    by (simp only: of_int_1_le_iff)
  then have "1 * (2::rat) powi emin \<le> of_int (i - j) * 2 powi emin"
    using p by (simp only: mult_le_cancel_right_pos)
  then show ?thesis
    unfolding ij by (simp only: of_int_diff left_diff_distrib mult_1_left)
qed

lemma compare_binary64:
  assumes "is_binary64 a" and "is_binary64 b"
  shows "num_positive (num_sub (Fin a) (Fin b)) = (b < a)"
proof (cases "b < a")
  case True
  then show ?thesis
    using round64_positive [of "a - b"] binary64_difference [OF assms True]
    by (simp add: num_sub_def)
next
  case False
  then show ?thesis
    using round64_not_positive [of "a - b"] by (simp add: num_sub_def)
qed

lemma is_binary64_0: "is_binary64 0"
  unfolding is_binary64_iff by (intro exI [of _ 0]) simp

lemma is_binary64_minus: "is_binary64 (- r) \<Longrightarrow> is_binary64 r"
proof -
  assume "is_binary64 (- r)"
  then obtain k :: int where "- r = of_int k * 2 powi emin"
    unfolding is_binary64_iff ..
  then have "r = of_int (- k) * 2 powi emin" by simp
  then show ?thesis unfolding is_binary64_iff ..
qed

lemma StrUnsignedDecimalLiteral_binary64:
  "StrUnsignedDecimalLiteral s = Fin r \<Longrightarrow> is_binary64 r"
  by (auto simp: StrUnsignedDecimalLiteral_def Let_def dest: round64_is_binary64
      split: if_splits option.splits)

lemma NonDecimalIntegerLiteral_binary64:
  "NonDecimalIntegerLiteral b s = Fin r \<Longrightarrow> is_binary64 r"
  by (auto simp: NonDecimalIntegerLiteral_def dest: round64_is_binary64 split: option.splits)

lemma num_neg_Fin: "num_neg v = Fin r \<Longrightarrow> v = Fin (- r)"
  by (cases v) auto

lemma Number_of_string_binary64: "Number_of_string s = Fin r \<Longrightarrow> is_binary64 r"
  unfolding Number_of_string_def Let_def
  by (auto split: list.splits if_splits
      dest!: num_neg_Fin StrUnsignedDecimalLiteral_binary64 NonDecimalIntegerLiteral_binary64
      intro: is_binary64_minus simp: is_binary64_0)

lemma rne_of_int: "rne (of_int z) = z"
  by (simp add: rne_def)

lemma round64_of_int:
  assumes "\<bar>n\<bar> < 2 ^ 53"
  shows "round64 (of_int n) = Fin (of_int n)"
proof (cases "n = 0")
  case True
  then show ?thesis by (simp add: round64_def)
next
  case False
  define a :: rat where "a = \<bar>of_int n\<bar>"
  define e where "e = max (ilog2 a) (- 1022)"
  define m where "m = rne (a / 2 powi (e - 52))"
  have a1: "1 \<le> a" using False by (simp add: a_def flip: of_int_abs)
  then have a0: "0 < a" by simp
  have a53: "a < 2 powi 53"
    using assms by (simp add: a_def flip: of_int_abs)
  have lo: "2 powi (ilog2 a) \<le> a" and up: "a < 2 powi (ilog2 a + 1)"
    using ilog2_lower [OF a0] ilog2_upper [OF a0] by simp_all
  have e0: "0 \<le> ilog2 a"
  proof (rule ccontr)
    assume "\<not> 0 \<le> ilog2 a"
    then have "ilog2 a + 1 \<le> 0" by simp
    then have "(2::rat) powi (ilog2 a + 1) \<le> 2 powi 0" by (rule pow2_mono)
    with up a1 show False by simp
  qed
  have e52: "ilog2 a \<le> 52"
  proof (rule ccontr)
    assume "\<not> ilog2 a \<le> 52"
    then have "53 \<le> ilog2 a" by simp
    then have "(2::rat) powi 53 \<le> 2 powi (ilog2 a)" by (rule pow2_mono)
    with lo a53 show False by simp
  qed
  have e: "e = ilog2 a" using e0 by (simp add: e_def)
  define k where "k = nat (52 - e)"
  have ek: "e - 52 = - int k" using e e52 by (simp add: k_def)
  have u: "(2::rat) powi (e - 52) = 1 / 2 ^ k"
    unfolding ek by (simp add: power_int_minus field_simps)
  have "a / 2 powi (e - 52) = of_int (\<bar>n\<bar> * 2 ^ k)"
    unfolding u by (simp add: a_def)
  then have m: "m = \<bar>n\<bar> * 2 ^ k"
    unfolding m_def by (simp only: rne_of_int)
  have r: "of_int m * (2::rat) powi (e - 52) = a"
    unfolding u m by (simp add: a_def)
  have nov: "\<not> (1024 \<le> e \<or> (e = 1023 \<and> m = 9007199254740992))"
    using e e52 by simp
  have nz: "(of_int n :: rat) \<noteq> 0" using False by simp
  have "round64 (of_int n) = Fin (if (of_int n :: rat) < 0 then - a else a)"
    using round64_nonzero [OF nz] nov r
    unfolding a_def [symmetric] e_def [symmetric] m_def [symmetric]
    by (simp only: if_False)
  then show ?thesis by (simp add: a_def)
qed

lemma round64_of_int_le:
  assumes "\<bar>n\<bar> \<le> 2 ^ 53"
  shows "round64 (of_int n) = Fin (of_int n)"
proof (cases "\<bar>n\<bar> < 2 ^ 53")
  case True
  then show ?thesis by (rule round64_of_int)
next
  case False
  have top: "round64 9007199254740992 = Fin 9007199254740992"
    "round64 (- 9007199254740992) = Fin (- 9007199254740992)"
    by code_simp+
  from False assms have "n = 9007199254740992 \<or> n = - 9007199254740992" by auto
  then show ?thesis using top by auto
qed

lemma num_add_Fin_ints:
  "\<bar>a + b\<bar> \<le> 2 ^ 53 \<Longrightarrow> num_add (Fin (of_int a)) (Fin (of_int b)) = Fin (of_int (a + b))"
  using round64_of_int_le [of "a + b"] by simp

lemma num_add_small: "round64 1 = Fin 1" "round64 2 = Fin 2" "round64 3 = Fin 3"
  using round64_of_int_le [of 1] round64_of_int_le [of 2] round64_of_int_le [of 3]
  by simp_all

lemma list_all_replicate: "P x \<Longrightarrow> list_all P (replicate n x)"
  by (induction n) simp_all

text \<open>From \<open>2 ^ 53\<close> on, adding one changes nothing: the sum is a tie and goes to the even neighbour.\<close>

lemma round64_above_2_53: "round64 9007199254740993 = Fin 9007199254740992"
  by code_simp

lemma num_add_one_at_2_53: "num_add (Fin 9007199254740992) (Fin 1) = Fin 9007199254740992"
  by (simp add: round64_above_2_53)



section \<open>Skus that end in decimal digits\<close>

lemma digit_in_base_10: "is_DecimalDigit c \<Longrightarrow> digit_in_base 10 c = Some (of_char c - 48)"
  by (auto simp: is_DecimalDigit_def digit_in_base_def Let_def)

lemma digits_in_base_10:
  "list_all is_DecimalDigit s \<Longrightarrow>
     digits_in_base 10 acc s = Some (foldl (\<lambda>v c. 10 * v + (of_char c - 48)) acc s)"
  for acc :: nat
  by (induction s arbitrary: acc) (simp_all add: digit_in_base_10)

lemma foldl_digits_bound:
  "list_all is_DecimalDigit s \<Longrightarrow>
     foldl (\<lambda>v c. 10 * v + (of_char c - 48)) acc s < (acc + 1) * 10 ^ length s"
  for acc :: nat
proof (induction s arbitrary: acc)
  case Nil
  then show ?case by simp
next
  case (Cons c s)
  define d :: nat where "d = of_char c - 48"
  have "d \<le> 9"
    using Cons.prems by (simp add: d_def is_DecimalDigit_def le_diff_conv)
  then have "10 * acc + d + 1 \<le> (acc + 1) * 10" by simp
  then have "(10 * acc + d + 1) * 10 ^ length s \<le> ((acc + 1) * 10) * 10 ^ length s"
    by (rule mult_le_mono1)
  moreover have "((acc + 1) * 10) * 10 ^ length s = (acc + 1) * 10 ^ length (c # s)"
    by (simp add: algebra_simps)
  ultimately have "(10 * acc + d + 1) * 10 ^ length s \<le> (acc + 1) * 10 ^ length (c # s)"
    by (simp only:)
  moreover have "foldl (\<lambda>v c. 10 * v + (of_char c - 48)) (10 * acc + d) s
      < (10 * acc + d + 1) * 10 ^ length s"
    using Cons by simp
  ultimately show ?case by (simp add: d_def)
qed

lemma decimal_value_bound:
  "list_all is_DecimalDigit s \<Longrightarrow> decimal_value s < 10 ^ length s"
  using foldl_digits_bound [of s 0] by (simp add: decimal_value_def)

lemma digit_not_space: "is_DecimalDigit c \<Longrightarrow> \<not> is_StrWhiteSpaceChar c"
  by (auto simp: is_DecimalDigit_def is_StrWhiteSpaceChar_def)

lemma digit_not_special:
  assumes "is_DecimalDigit c"
  shows "c \<noteq> CHR ''+''" and "c \<noteq> CHR ''-''" and "c \<noteq> CHR ''.''" and "c \<noteq> CHR ''I''"
    and "c \<notin> set ''xX''" and "c \<notin> set ''oO''" and "c \<notin> set ''bB''"
  using assms by (auto simp: is_DecimalDigit_def)

lemma StrUnsignedDecimalLiteral_digits:
  assumes "list_all is_DecimalDigit s" and "s \<noteq> []"
  shows "StrUnsignedDecimalLiteral s = round64 (of_nat (decimal_value s))"
proof -
  have "s \<noteq> ''Infinity''"
    using assms(1) by (auto simp: is_DecimalDigit_def)
  moreover have tw: "takeWhile is_DecimalDigit s = s" and dw: "dropWhile is_DecimalDigit s = []"
    using assms(1) by (simp_all add: list_all_iff)
  ultimately show ?thesis
    unfolding StrUnsignedDecimalLiteral_def Let_def tw dw
    using assms(2)
    by (simp add: digits_in_base_10 [OF assms(1)] ExponentPart_def decimal_value_def)
qed

lemma Number_of_string_digits:
  assumes "list_all is_DecimalDigit s" and "s \<noteq> []"
  shows "Number_of_string s = round64 (of_nat (decimal_value s))"
proof -
  obtain c r where s: "s = c # r" using assms(2) by (cases s) auto
  have c: "is_DecimalDigit c" and r: "list_all is_DecimalDigit r"
    using assms(1) s by simp_all
  have front: "dropWhile is_StrWhiteSpaceChar s = s"
    using c s by (simp add: digit_not_space)
  have "is_DecimalDigit (last s)"
    using assms by (simp add: list_all_iff)
  then have "dropWhile is_StrWhiteSpaceChar (rev s) = rev s"
    using assms(2) by (cases "rev s") (auto simp: digit_not_space last_rev [symmetric] hd_rev)
  then have trim: "rev (dropWhile is_StrWhiteSpaceChar (rev (dropWhile is_StrWhiteSpaceChar s))) = s"
    by (simp add: front)
  have hd_r: "r \<noteq> [] \<Longrightarrow> is_DecimalDigit (hd r)"
    using r by (cases r) simp_all
  have prefix: "\<not> (r \<noteq> [] \<and> hd r \<in> set ''xX'')" "\<not> (r \<noteq> [] \<and> hd r \<in> set ''oO'')"
    "\<not> (r \<noteq> [] \<and> hd r \<in> set ''bB'')"
    using hd_r digit_not_special(5-7) by blast+
  have "Number_of_string s = StrUnsignedDecimalLiteral s"
    unfolding Number_of_string_def Let_def trim
    using digit_not_special(1,2) [OF c] prefix by (auto simp: s)
  then show ?thesis
    by (simp add: StrUnsignedDecimalLiteral_digits [OF assms])
qed

lemma length_slice_4: "length (slice s (- 4)) \<le> 4"
  by (simp add: slice_def Let_def)

lemma sku_number_digits:
  assumes "list_all is_DecimalDigit (slice (sku a) (- 4))" and "slice (sku a) (- 4) \<noteq> []"
  shows "sku_number a = Fin (of_nat (decimal_value (slice (sku a) (- 4))))"
proof -
  let ?t = "slice (sku a) (- 4)"
  have "decimal_value ?t < 10 ^ length ?t"
    using assms(1) by (rule decimal_value_bound)
  also have "\<dots> \<le> 10 ^ 4"
    by (rule power_increasing) (simp_all add: length_slice_4)
  finally have "\<bar>int (decimal_value ?t)\<bar> < 2 ^ 53" by simp
  from round64_of_int [OF this] show ?thesis
    by (simp add: sku_number_def Number_of_string_digits [OF assms])
qed

section \<open>The sort of the hook is the stable sort by key\<close>

lemma sku_number_key: "num_finite (sku_number a) \<Longrightarrow> sku_number a = Fin (sku_key a)"
  by (cases "sku_number a") (simp_all add: sku_key_def)

lemma compare_sku_positive:
  assumes "num_finite (sku_number a)" and "num_finite (sku_number b)"
  shows "num_positive (compare_sku a b) = (sku_key b < sku_key a)"
proof -
  have a: "sku_number a = Fin (sku_key a)" and b: "sku_number b = Fin (sku_key b)"
    using assms by (simp_all add: sku_number_key)
  have "is_binary64 (sku_key a)" "is_binary64 (sku_key b)"
    using a b Number_of_string_binary64 unfolding sku_number_def by blast+
  then show ?thesis
    unfolding compare_sku_def a b by (rule compare_binary64)
qed

lemma sort_insert_insort_key:
  "\<forall>y \<in> set ys. num_positive (c x y) = (k y < k x) \<Longrightarrow> sort_insert c x ys = insort_key k x ys"
  by (induction ys) auto

lemma array_sort_sort_key:
  "\<forall>x \<in> set xs. \<forall>y \<in> set xs. num_positive (c x y) = (k y < k x) \<Longrightarrow>
     array_sort c xs = sort_key k xs"
proof (induction xs)
  case Nil
  then show ?case by simp
next
  case (Cons x xs)
  then have "array_sort c xs = sort_key k xs" by simp
  moreover have "\<forall>y \<in> set (sort_key k xs). num_positive (c x y) = (k y < k x)"
    using Cons.prems by simp
  ultimately show ?case
    by (simp add: sort_insert_insort_key sort_key_simps del: sort_key_def)
qed

lemma sort_compare_sku:
  assumes "list_all (\<lambda>l. num_finite (sku_number l)) xs"
  shows "array_sort compare_sku xs = sort_key sku_key xs"
  using assms by (intro array_sort_sort_key) (simp add: list_all_iff compare_sku_positive)

lemma cart_view_hook:
  "cart_view (fst (useCartContext state)) = array_sort compare_sku (cart state)"
  by (simp add: useCartContext_def Let_def)

lemma display_order_general:
  assumes fin: "list_all (\<lambda>l. num_finite (sku_number l)) (cart state)"
  shows "sorted_wrt (\<lambda>a b. num_le (sku_number a) (sku_number b))
            (cart_view (fst (useCartContext state)))"
    and "mset (cart_view (fst (useCartContext state))) = mset (cart state)"
    and "filter (\<lambda>l. sku_number l = k) (cart_view (fst (useCartContext state))) =
         filter (\<lambda>l. sku_number l = k) (cart state)"
proof -
  let ?view = "cart_view (fst (useCartContext state))"
  have view: "?view = sort_key sku_key (cart state)"
    by (simp add: cart_view_hook sort_compare_sku [OF fin])
  have all: "\<forall>l \<in> set ?view. sku_number l = Fin (sku_key l)"
    using fin by (simp add: view list_all_iff sku_number_key)
  have "sorted (map sku_key ?view)" by (simp add: view)
  then have "sorted_wrt (\<lambda>a b. sku_key a \<le> sku_key b) ?view"
    by (simp add: sorted_map)
  then show "sorted_wrt (\<lambda>a b. num_le (sku_number a) (sku_number b)) ?view"
    by (rule sorted_wrt_mono_rel [rotated]) (simp add: all)
  show "mset ?view = mset (cart state)" by (simp add: view)
  show "filter (\<lambda>l. sku_number l = k) ?view = filter (\<lambda>l. sku_number l = k) (cart state)"
  proof (cases k)
    case (Fin r)
    have "filter (\<lambda>l. sku_number l = k) ?view = filter (\<lambda>l. sku_key l = r) ?view"
      using all Fin by (intro filter_cong) auto
    also have "\<dots> = filter (\<lambda>l. sku_key l = r) (cart state)"
      by (simp add: view sort_key_stable)
    also have "\<dots> = filter (\<lambda>l. sku_number l = k) (cart state)"
      using fin Fin by (intro filter_cong) (auto simp: list_all_iff sku_number_key)
    finally show ?thesis .
  next
    case NaN
    have "filter (\<lambda>l. sku_number l = k) ?view = []"
      using all NaN by (auto simp: filter_empty_conv)
    moreover have "filter (\<lambda>l. sku_number l = k) (cart state) = []"
      using fin NaN by (auto simp: filter_empty_conv list_all_iff dest: sku_number_key)
    ultimately show ?thesis by simp
  next
    case NegInf
    have "filter (\<lambda>l. sku_number l = k) ?view = []"
      using all NegInf by (auto simp: filter_empty_conv)
    moreover have "filter (\<lambda>l. sku_number l = k) (cart state) = []"
      using fin NegInf by (auto simp: filter_empty_conv list_all_iff dest: sku_number_key)
    ultimately show ?thesis by simp
  next
    case PosInf
    have "filter (\<lambda>l. sku_number l = k) ?view = []"
      using all PosInf by (auto simp: filter_empty_conv)
    moreover have "filter (\<lambda>l. sku_number l = k) (cart state) = []"
      using fin PosInf by (auto simp: filter_empty_conv list_all_iff dest: sku_number_key)
    ultimately show ?thesis by simp
  qed
qed

section \<open>Values at concrete skus and prices\<close>

lemma slice_item: 
  "slice ''item0001'' (- 4) = ''0001''" "slice ''item0002'' (- 4) = ''0002''"
  "slice ''item0003'' (- 4) = ''0003''"
  by (simp_all add: slice_def)

lemma Number_of_suffix:
  "Number_of_string ''0001'' = Fin 1" "Number_of_string ''0002'' = Fin 2"
  "Number_of_string ''0003'' = Fin 3"
  by code_simp+

lemma sku_number_item:
  "sku a = ''item0001'' \<Longrightarrow> sku_number a = Fin 1"
  "sku a = ''item0002'' \<Longrightarrow> sku_number a = Fin 2"
  "sku a = ''item0003'' \<Longrightarrow> sku_number a = Fin 3"
  by (simp_all add: sku_number_def slice_item Number_of_suffix)

lemma sku_key_item:
  "sku a = ''item0001'' \<Longrightarrow> sku_key a = 1"
  "sku a = ''item0002'' \<Longrightarrow> sku_key a = 2"
  "sku a = ''item0003'' \<Longrightarrow> sku_key a = 3"
  by (simp_all add: sku_key_def sku_number_item)

lemma price_sum_catalog:
  "format_currency
     (num_add (num_add (Fin 0) (num_mul (Fin 2) (round64 (999 / 100))))
        (num_mul (Fin 1) (round64 (1999 / 100)))) = Some ''$39.97''"
  by code_simp

lemma price_sum_unsorted:
  "format_currency
     (num_add (num_add (num_add (Fin 0) (num_mul (Fin 1) (round64 (1 / 200))))
        (num_mul (Fin 1) (round64 (23 / 200))))
        (num_mul (Fin 1) (round64 (201 / 200)))) = Some ''$1.13''"
  by code_simp

lemma price_sum_sorted:
  "format_currency
     (num_add (num_add (num_add (Fin 0) (num_mul (Fin 1) (round64 (1 / 200))))
        (num_mul (Fin 1) (round64 (201 / 200))))
        (num_mul (Fin 1) (round64 (23 / 200)))) = Some ''$1.12''"
  by code_simp

lemma slice_gift: "slice ''gift0001'' (- 4) = ''0001''"
  by (simp add: slice_def)

lemma sku_number_gift: "sku a = ''gift0001'' \<Longrightarrow> sku_number a = Fin 1"
  by (simp add: sku_number_def slice_gift Number_of_suffix)

section \<open>Reads and the stored state\<close>

text \<open>
  Claim C1: computing totalItems, totalPrice and the display order leaves the cart state
  unchanged. The hook does change it: the sort works in place on \<^verbatim>\<open>state.cart\<close>. After ADD
  of item0003 and then of item0001 the stored array holds the two lines in that order; one
  call of the hook leaves item0001 in front of item0003 in the stored state.
\<close>

theorem hook_reorders_stored_cart:
  "snd (useCartContext \<lparr>cart =
      [\<lparr>sku = ''item0003'', name = ''Deluxe Widget'', price = round64 (2999 / 100), qty = Fin 1\<rparr>,
       \<lparr>sku = ''item0001'', name = ''Widget'', price = round64 (999 / 100), qty = Fin 1\<rparr>]\<rparr>) =
   \<lparr>cart =
      [\<lparr>sku = ''item0001'', name = ''Widget'', price = round64 (999 / 100), qty = Fin 1\<rparr>,
       \<lparr>sku = ''item0003'', name = ''Deluxe Widget'', price = round64 (2999 / 100), qty = Fin 1\<rparr>]\<rparr>"
  by (simp add: state_after_hook compare_sku_positive sku_number_item sku_key_item)

section \<open>Quantities\<close>







section \<open>Repeated ADD\<close>

lemma run_append:
  "run state (evs @ evs') =
     (case run state evs of Inl e \<Rightarrow> Inl e | Inr state' \<Rightarrow> run state' evs')"
  by (induction state evs rule: run.induct) (auto split: sum.splits)

lemma reducer_ADD_single:
  assumes "is_ADD_of s a" and "cart state = [l]" and "sku l = s"
  shows "\<exists>l'. reducer state a = Inr (state\<lparr>cart := [l']\<rparr>) \<and> sku l' = s \<and>
     qty l' = num_add (qty l) (Fin 1)"
proof -
  obtain p where p: "type a = ADD" "payload a = Some p" "sku p = s"
    using assms(1) by (auto simp: is_ADD_of_def split: option.splits)
  show ?thesis
    using assms(2,3) p(3)
    by (intro exI [of _ "\<lparr>sku = s, name = name p, price = price p,
        qty = num_add (qty l) (Fin 1)\<rparr>"])
      (simp add: reducer_ADD [OF p(1,2)])
qed

lemma reducer_ADD_empty:
  assumes "is_ADD_of s a" and "cart state = []"
  shows "\<exists>l'. reducer state a = Inr (state\<lparr>cart := [l']\<rparr>) \<and> sku l' = s \<and> qty l' = Fin 1"
proof -
  obtain p where p: "type a = ADD" "payload a = Some p" "sku p = s"
    using assms(1) by (auto simp: is_ADD_of_def split: option.splits)
  show ?thesis
    using assms(2) p(3)
    by (intro exI [of _ "\<lparr>sku = s, name = name p, price = price p, qty = Fin 1\<rparr>"])
      (simp add: reducer_ADD [OF p(1,2)])
qed

lemma run_ADDs_single:
  assumes "list_all (is_ADD_of s) as" and "cart state = [l]" and "sku l = s"
    and "qty l = Fin (of_int k)" and "0 \<le> k" and "k + int (length as) \<le> 2 ^ 53"
  shows "\<exists>l'. run state (map Dispatch as) = Inr (state\<lparr>cart := [l']\<rparr>) \<and> sku l' = s \<and>
     qty l' = Fin (of_int (k + int (length as)))"
  using assms
proof (induction as arbitrary: state l k)
  case Nil
  then show ?case by (intro exI [of _ l]) simp
next
  case (Cons a as)
  from Cons.prems obtain l1 where l1:
    "reducer state a = Inr (state\<lparr>cart := [l1]\<rparr>)" "sku l1 = s"
    "qty l1 = num_add (qty l) (Fin 1)"
    using reducer_ADD_single [of s a state l] by auto
  have "\<bar>k + 1\<bar> \<le> 2 ^ 53" using Cons.prems(5,6) by simp
  then have q1: "qty l1 = Fin (of_int (k + 1))"
    using l1(3) Cons.prems(4) num_add_Fin_ints [of k 1] by simp
  from Cons.prems have all: "list_all (is_ADD_of s) as" by simp
  have bound: "0 \<le> k + 1" "(k + 1) + int (length as) \<le> 2 ^ 53"
    using Cons.prems(5,6) by simp_all
  from Cons.IH [OF all _ l1(2) q1 bound, of "state\<lparr>cart := [l1]\<rparr>"]
  obtain l' where "run (state\<lparr>cart := [l1]\<rparr>) (map Dispatch as) = Inr (state\<lparr>cart := [l']\<rparr>)"
    "sku l' = s" "qty l' = Fin (of_int ((k + 1) + int (length as)))"
    by auto
  then show ?case using l1 by (intro exI [of _ l']) (simp add: add.assoc add.commute)
qed

text \<open>
  Claim C3, as stated: for every \<open>n \<ge> 1\<close>, \<open>n\<close> ADD actions with a payload of the same sku,
  applied to the empty cart, leave one line of that sku with quantity \<open>n\<close>. The quantity is a
  binary64 value and \<^verbatim>\<open>itemExists.qty + 1\<close> rounds: once the quantity is \<open>2 ^ 53\<close> =
  9007199254740992 another ADD leaves it there. After 9007199254740993 ADD actions of
  item0001 the line has quantity 9007199254740992.
\<close>

theorem ADD_stops_counting_at_2_53:
  "run initCartState (map Dispatch (replicate 9007199254740993
      \<lparr>type = ADD, payload = Some
         \<lparr>sku = ''item0001'', name = ''Widget'', price = round64 (999 / 100), qty = Fin 1\<rparr>\<rparr>)) =
   Inr \<lparr>cart =
      [\<lparr>sku = ''item0001'', name = ''Widget'', price = round64 (999 / 100),
         qty = Fin 9007199254740992\<rparr>]\<rparr>"
proof -
  let ?p = "\<lparr>sku = ''item0001'', name = ''Widget'', price = round64 (999 / 100), qty = Fin 1\<rparr>"
  let ?a = "\<lparr>type = ADD, payload = Some ?p\<rparr>"
  let ?n = "9007199254740991 :: nat"
  have a: "is_ADD_of ''item0001'' ?a" by (simp add: is_ADD_of_def)
  have split: "replicate 9007199254740993 ?a = ?a # (replicate ?n ?a @ [?a])"
  proof -
    have "(9007199254740993 :: nat) = Suc (?n + 1)" by simp
    then have "replicate 9007199254740993 ?a = replicate (Suc (?n + 1)) ?a" by (simp only:)
    also have "\<dots> = ?a # (replicate ?n ?a @ [?a])"
      by (simp only: replicate_Suc replicate_add replicate.simps One_nat_def)
    finally show ?thesis .
  qed
  have first: "reducer initCartState ?a = Inr \<lparr>cart = [?p]\<rparr>"
    by (simp add: initCartState_def reducer_ADD)
  have "list_all (is_ADD_of ''item0001'') (replicate ?n ?a)"
    using a by (rule list_all_replicate)
  from run_ADDs_single [OF this, of "\<lparr>cart = [?p]\<rparr>" ?p 1]
  obtain l where l: "run \<lparr>cart = [?p]\<rparr> (map Dispatch (replicate ?n ?a)) = Inr \<lparr>cart = [l]\<rparr>"
    "sku l = ''item0001''" "qty l = Fin (of_int (1 + int (length (replicate ?n ?a))))"
    by (auto simp only: length_replicate) auto
  have ql: "qty l = Fin 9007199254740992"
    using l(3) by (simp only: length_replicate) simp
  have last: "reducer \<lparr>cart = [l]\<rparr> ?a =
      Inr \<lparr>cart = [\<lparr>sku = ''item0001'', name = ''Widget'', price = round64 (999 / 100),
         qty = Fin 9007199254740992\<rparr>]\<rparr>"
    using l(2) ql by (simp add: reducer_ADD round64_above_2_53)
  show ?thesis
    unfolding split
    using first l(1) last by (simp only: list.map run.simps map_append run_append sum.case)
qed

text \<open>
  Claim C3, amended: for every \<open>n\<close> from \<open>1\<close> to \<open>2 ^ 53\<close>, \<open>n\<close> ADD actions with a payload of
  the same sku, applied to the empty cart, leave a cart of exactly one line, of that sku and
  of quantity \<open>n\<close>.
\<close>

theorem repeated_ADD_counts:
  assumes "as \<noteq> []" and "length as \<le> 2 ^ 53"
    and "\<forall>a \<in> set as. type a = ADD \<and> (\<exists>p. payload a = Some p \<and> sku p = s)"
  shows "\<exists>l. run initCartState (map Dispatch as) = Inr \<lparr>cart = [l]\<rparr> \<and> sku l = s \<and>
     qty l = Fin (of_nat (length as))"
proof -
  have all: "list_all (is_ADD_of s) as"
    using assms(3) by (auto simp: list_all_iff is_ADD_of_def)
  obtain a as' where as: "as = a # as'"
    using assms(1) by (cases as) auto
  from all as obtain l1 where l1:
    "reducer initCartState a = Inr (initCartState\<lparr>cart := [l1]\<rparr>)" "sku l1 = s" "qty l1 = Fin 1"
    using reducer_ADD_empty [of s a initCartState] by (auto simp: initCartState_def)
  from all as have all': "list_all (is_ADD_of s) as'" by simp
  have q1: "qty l1 = Fin (of_int 1)" using l1(3) by simp
  have "int (length as) \<le> 2 ^ 53"
    using assms(2) by (metis of_nat_le_iff of_nat_numeral of_nat_power)
  then have bound: "1 + int (length as') \<le> 2 ^ 53" using as by simp
  from run_ADDs_single [OF all' _ l1(2) q1 _ bound, of "initCartState\<lparr>cart := [l1]\<rparr>"]
  obtain l' where
    "run (initCartState\<lparr>cart := [l1]\<rparr>) (map Dispatch as') = Inr (initCartState\<lparr>cart := [l']\<rparr>)"
    "sku l' = s" "qty l' = Fin (of_int (1 + int (length as')))"
    by auto
  then show ?thesis
    using l1 as by (intro exI [of _ l']) (simp add: initCartState_def add.commute)
qed

theorem repeated_ADD_counts_witness:
  "run initCartState (map Dispatch
     [\<lparr>type = ADD, payload = Some \<lparr>sku = ''item0001'', name = ''Widget'', price = Fin 1, qty = Fin 1\<rparr>\<rparr>,
      \<lparr>type = ADD, payload = Some \<lparr>sku = ''item0001'', name = ''Widget'', price = Fin 1, qty = Fin 1\<rparr>\<rparr>,
      \<lparr>type = ADD, payload = Some \<lparr>sku = ''item0001'', name = ''Widget'', price = Fin 1, qty = Fin 1\<rparr>\<rparr>]) =
   Inr \<lparr>cart = [\<lparr>sku = ''item0001'', name = ''Widget'', price = Fin 1, qty = Fin 3\<rparr>]\<rparr>"
proof -
  let ?a = "\<lparr>type = ADD,
    payload = Some \<lparr>sku = ''item0001'', name = ''Widget'', price = Fin 1, qty = Fin 1\<rparr>\<rparr>"
  have "\<exists>l. run initCartState (map Dispatch [?a, ?a, ?a]) = Inr \<lparr>cart = [l]\<rparr> \<and>
      sku l = ''item0001'' \<and> qty l = Fin (of_nat (length [?a, ?a, ?a]))"
    by (rule repeated_ADD_counts) simp_all
  then show ?thesis
    by (simp add: initCartState_def reducer_ADD num_add_small)
qed

section \<open>One line per sku\<close>

lemma distinct_skus_array_sort:
  "distinct (map sku (array_sort c xs)) = distinct (map sku xs)"
proof -
  have "mset (map sku (array_sort c xs)) = mset (map sku xs)"
    by (simp add: mset_array_sort)
  then show ?thesis by (metis distinct_count_atmost_1 set_mset_mset)
qed

lemma reducer_distinct_skus:
  assumes "reducer state action = Inr state'" and "distinct (map sku (cart state))"
  shows "distinct (map sku (cart state'))"
  using assms
  by (auto simp: reducer_def Let_def distinct_map_filter dest!: find_sku_SomeD
      split: if_splits option.splits)

lemma run_distinct_skus:
  "run state evs = Inr state' \<Longrightarrow> distinct (map sku (cart state)) \<Longrightarrow>
     distinct (map sku (cart state'))"
proof (induction state evs rule: run.induct)
  case (1 state)
  then show ?case by simp
next
  case (2 state action evs)
  then show ?case
    by (auto split: sum.splits dest: reducer_distinct_skus)
next
  case (3 state evs)
  then show ?case
    by (simp add: cart_after_hook distinct_skus_array_sort)
qed

text \<open>
  Claim C4: in every state reached from the empty cart by ADD, REMOVE, QUANTITY and SUBMIT
  transitions, no two lines share a sku. The runs here may render between the dispatches
  as well; a list of dispatches alone is one of them.
\<close>

theorem one_line_per_sku:
  assumes "run initCartState evs = Inr state"
  shows "distinct (map sku (cart state))"
  using run_distinct_skus [OF assms] by (simp add: initCartState_def)

theorem one_line_per_sku_witness:
  "run initCartState
     [Dispatch \<lparr>type = ADD,
        payload = Some \<lparr>sku = ''item0003'', name = ''Deluxe Widget'', price = Fin 3, qty = Fin 1\<rparr>\<rparr>,
      Dispatch \<lparr>type = ADD,
        payload = Some \<lparr>sku = ''item0001'', name = ''Widget'', price = Fin 1, qty = Fin 1\<rparr>\<rparr>,
      Dispatch \<lparr>type = ADD,
        payload = Some \<lparr>sku = ''item0003'', name = ''Deluxe Widget'', price = Fin 3, qty = Fin 1\<rparr>\<rparr>] =
   Inr \<lparr>cart =
      [\<lparr>sku = ''item0001'', name = ''Widget'', price = Fin 1, qty = Fin 1\<rparr>,
       \<lparr>sku = ''item0003'', name = ''Deluxe Widget'', price = Fin 3, qty = Fin 2\<rparr>]\<rparr> \<and>
   distinct (map sku (cart \<lparr>cart =
      [\<lparr>sku = ''item0001'', name = ''Widget'', price = Fin 1, qty = Fin 1\<rparr>,
       \<lparr>sku = ''item0003'', name = ''Deluxe Widget'', price = Fin 3, qty = Fin 2\<rparr>]\<rparr>))"
proof -
  have h: "run initCartState
     [Dispatch \<lparr>type = ADD,
        payload = Some \<lparr>sku = ''item0003'', name = ''Deluxe Widget'', price = Fin 3, qty = Fin 1\<rparr>\<rparr>,
      Dispatch \<lparr>type = ADD,
        payload = Some \<lparr>sku = ''item0001'', name = ''Widget'', price = Fin 1, qty = Fin 1\<rparr>\<rparr>,
      Dispatch \<lparr>type = ADD,
        payload = Some \<lparr>sku = ''item0003'', name = ''Deluxe Widget'', price = Fin 3, qty = Fin 1\<rparr>\<rparr>] =
   Inr \<lparr>cart =
      [\<lparr>sku = ''item0001'', name = ''Widget'', price = Fin 1, qty = Fin 1\<rparr>,
       \<lparr>sku = ''item0003'', name = ''Deluxe Widget'', price = Fin 3, qty = Fin 2\<rparr>]\<rparr>"
    by (simp add: initCartState_def reducer_ADD num_add_small)
  from one_line_per_sku [OF h] h show ?thesis by simp
qed

section \<open>The display order\<close>

text \<open>
  Claim C5: the display order is the cart sorted ascending by the number read from the
  last four characters of each sku, lines of equal key keeping their order in the cart; for
  a sku whose last four characters are decimal digits that number is the integer they
  denote; and after ADD of item0003, item0001 and item0002, in that order, the display
  order is item0001, item0002, item0003. The first part is for the carts in which the last
  four characters of every sku read as a finite number: ECMAScript fixes the result of the
  sort only there, where the comparator is consistent.
\<close>

theorem display_order_sorted_stable:
  "(\<forall>state :: CartStateType. list_all (\<lambda>l. num_finite (sku_number l)) (cart state) \<longrightarrow>
      sorted_wrt (\<lambda>a b. num_le (sku_number a) (sku_number b))
        (cart_view (fst (useCartContext state))) \<and>
      mset (cart_view (fst (useCartContext state))) = mset (cart state) \<and>
      (\<forall>k. filter (\<lambda>l. sku_number l = k) (cart_view (fst (useCartContext state))) =
           filter (\<lambda>l. sku_number l = k) (cart state))) \<and>
   (\<forall>a :: CartItemType.
      slice (sku a) (- 4) \<noteq> [] \<and> list_all is_DecimalDigit (slice (sku a) (- 4)) \<longrightarrow>
      sku_number a = Fin (of_nat (decimal_value (slice (sku a) (- 4))))) \<and>
   run initCartState
     [Dispatch \<lparr>type = ADD, payload = Some
        \<lparr>sku = ''item0003'', name = ''Deluxe Widget'', price = round64 (2999 / 100), qty = Fin 1\<rparr>\<rparr>,
      Dispatch \<lparr>type = ADD, payload = Some
        \<lparr>sku = ''item0001'', name = ''Widget'', price = round64 (999 / 100), qty = Fin 1\<rparr>\<rparr>,
      Dispatch \<lparr>type = ADD, payload = Some
        \<lparr>sku = ''item0002'', name = ''Premium Widget'', price = round64 (1999 / 100), qty = Fin 1\<rparr>\<rparr>] =
   Inr \<lparr>cart =
      [\<lparr>sku = ''item0003'', name = ''Deluxe Widget'', price = round64 (2999 / 100), qty = Fin 1\<rparr>,
       \<lparr>sku = ''item0001'', name = ''Widget'', price = round64 (999 / 100), qty = Fin 1\<rparr>,
       \<lparr>sku = ''item0002'', name = ''Premium Widget'', price = round64 (1999 / 100), qty = Fin 1\<rparr>]\<rparr> \<and>
   cart_view (fst (useCartContext \<lparr>cart =
      [\<lparr>sku = ''item0003'', name = ''Deluxe Widget'', price = round64 (2999 / 100), qty = Fin 1\<rparr>,
       \<lparr>sku = ''item0001'', name = ''Widget'', price = round64 (999 / 100), qty = Fin 1\<rparr>,
       \<lparr>sku = ''item0002'', name = ''Premium Widget'', price = round64 (1999 / 100), qty = Fin 1\<rparr>]\<rparr>)) =
      [\<lparr>sku = ''item0001'', name = ''Widget'', price = round64 (999 / 100), qty = Fin 1\<rparr>,
       \<lparr>sku = ''item0002'', name = ''Premium Widget'', price = round64 (1999 / 100), qty = Fin 1\<rparr>,
       \<lparr>sku = ''item0003'', name = ''Deluxe Widget'', price = round64 (2999 / 100), qty = Fin 1\<rparr>]"
proof (intro conjI)
  show "\<forall>state :: CartStateType. list_all (\<lambda>l. num_finite (sku_number l)) (cart state) \<longrightarrow>
      sorted_wrt (\<lambda>a b. num_le (sku_number a) (sku_number b))
        (cart_view (fst (useCartContext state))) \<and>
      mset (cart_view (fst (useCartContext state))) = mset (cart state) \<and>
      (\<forall>k. filter (\<lambda>l. sku_number l = k) (cart_view (fst (useCartContext state))) =
           filter (\<lambda>l. sku_number l = k) (cart state))"
    using display_order_general by blast
next
  show "\<forall>a :: CartItemType.
      slice (sku a) (- 4) \<noteq> [] \<and> list_all is_DecimalDigit (slice (sku a) (- 4)) \<longrightarrow>
      sku_number a = Fin (of_nat (decimal_value (slice (sku a) (- 4))))"
    using sku_number_digits by blast
next
  show "run initCartState
     [Dispatch \<lparr>type = ADD, payload = Some
        \<lparr>sku = ''item0003'', name = ''Deluxe Widget'', price = round64 (2999 / 100), qty = Fin 1\<rparr>\<rparr>,
      Dispatch \<lparr>type = ADD, payload = Some
        \<lparr>sku = ''item0001'', name = ''Widget'', price = round64 (999 / 100), qty = Fin 1\<rparr>\<rparr>,
      Dispatch \<lparr>type = ADD, payload = Some
        \<lparr>sku = ''item0002'', name = ''Premium Widget'', price = round64 (1999 / 100), qty = Fin 1\<rparr>\<rparr>] =
   Inr \<lparr>cart =
      [\<lparr>sku = ''item0003'', name = ''Deluxe Widget'', price = round64 (2999 / 100), qty = Fin 1\<rparr>,
       \<lparr>sku = ''item0001'', name = ''Widget'', price = round64 (999 / 100), qty = Fin 1\<rparr>,
       \<lparr>sku = ''item0002'', name = ''Premium Widget'', price = round64 (1999 / 100), qty = Fin 1\<rparr>]\<rparr>"
    by (simp add: initCartState_def reducer_ADD)
next
  show "cart_view (fst (useCartContext \<lparr>cart =
      [\<lparr>sku = ''item0003'', name = ''Deluxe Widget'', price = round64 (2999 / 100), qty = Fin 1\<rparr>,
       \<lparr>sku = ''item0001'', name = ''Widget'', price = round64 (999 / 100), qty = Fin 1\<rparr>,
       \<lparr>sku = ''item0002'', name = ''Premium Widget'', price = round64 (1999 / 100), qty = Fin 1\<rparr>]\<rparr>)) =
      [\<lparr>sku = ''item0001'', name = ''Widget'', price = round64 (999 / 100), qty = Fin 1\<rparr>,
       \<lparr>sku = ''item0002'', name = ''Premium Widget'', price = round64 (1999 / 100), qty = Fin 1\<rparr>,
       \<lparr>sku = ''item0003'', name = ''Deluxe Widget'', price = round64 (2999 / 100), qty = Fin 1\<rparr>]"
    by (simp add: cart_view_hook compare_sku_positive sku_number_item sku_key_item)
qed

theorem display_order_sorted_stable_witness:
  "list_all (\<lambda>l. num_finite (sku_number l)) (cart \<lparr>cart =
      [\<lparr>sku = ''item0002'', name = ''Premium Widget'', price = Fin 2, qty = Fin 1\<rparr>,
       \<lparr>sku = ''gift0001'', name = ''Gift Card'', price = Fin 5, qty = Fin 1\<rparr>,
       \<lparr>sku = ''item0001'', name = ''Widget'', price = Fin 1, qty = Fin 1\<rparr>]\<rparr>) \<and>
   sorted_wrt (\<lambda>a b. num_le (sku_number a) (sku_number b))
     (cart_view (fst (useCartContext \<lparr>cart =
      [\<lparr>sku = ''item0002'', name = ''Premium Widget'', price = Fin 2, qty = Fin 1\<rparr>,
       \<lparr>sku = ''gift0001'', name = ''Gift Card'', price = Fin 5, qty = Fin 1\<rparr>,
       \<lparr>sku = ''item0001'', name = ''Widget'', price = Fin 1, qty = Fin 1\<rparr>]\<rparr>))) \<and>
   filter (\<lambda>l. sku_number l = Fin 1)
     (cart_view (fst (useCartContext \<lparr>cart =
      [\<lparr>sku = ''item0002'', name = ''Premium Widget'', price = Fin 2, qty = Fin 1\<rparr>,
       \<lparr>sku = ''gift0001'', name = ''Gift Card'', price = Fin 5, qty = Fin 1\<rparr>,
       \<lparr>sku = ''item0001'', name = ''Widget'', price = Fin 1, qty = Fin 1\<rparr>]\<rparr>))) =
     [\<lparr>sku = ''gift0001'', name = ''Gift Card'', price = Fin 5, qty = Fin 1\<rparr>,
      \<lparr>sku = ''item0001'', name = ''Widget'', price = Fin 1, qty = Fin 1\<rparr>]"
proof -
  let ?state = "\<lparr>cart =
      [\<lparr>sku = ''item0002'', name = ''Premium Widget'', price = Fin 2, qty = Fin 1\<rparr>,
       \<lparr>sku = ''gift0001'', name = ''Gift Card'', price = Fin 5, qty = Fin 1\<rparr>,
       \<lparr>sku = ''item0001'', name = ''Widget'', price = Fin 1, qty = Fin 1\<rparr>]\<rparr>"
  have h: "list_all (\<lambda>l. num_finite (sku_number l)) (cart ?state)"
    by (simp add: sku_number_item sku_number_gift)
  have c: "filter (\<lambda>l. sku_number l = Fin 1) (cart ?state) =
     [\<lparr>sku = ''gift0001'', name = ''Gift Card'', price = Fin 5, qty = Fin 1\<rparr>,
      \<lparr>sku = ''item0001'', name = ''Widget'', price = Fin 1, qty = Fin 1\<rparr>]"
    by (simp add: sku_number_item sku_number_gift)
  from display_order_sorted_stable [THEN conjunct1, rule_format, OF h] h c
  show ?thesis by simp
qed

section \<open>Totals\<close>

text \<open>
  Claim C9: for the cart of item0001 at quantity 2 and price 9.99 and item0002 at quantity 1
  and price 19.99, totalItems is 3 and totalPrice is the text \<^verbatim>\<open>$39.97\<close>. The prices are the
  binary64 values of the literals \<^verbatim>\<open>9.99\<close> and \<^verbatim>\<open>19.99\<close>; the names of the lines are
  arbitrary.
\<close>

theorem totals_of_example_cart:
  "totalItems (fst (useCartContext \<lparr>cart =
      [\<lparr>sku = ''item0001'', name = n1, price = round64 (999 / 100), qty = Fin 2\<rparr>,
       \<lparr>sku = ''item0002'', name = n2, price = round64 (1999 / 100), qty = Fin 1\<rparr>]\<rparr>)) = Fin 3 \<and>
   totalPrice (fst (useCartContext \<lparr>cart =
      [\<lparr>sku = ''item0001'', name = n1, price = round64 (999 / 100), qty = Fin 2\<rparr>,
       \<lparr>sku = ''item0002'', name = n2, price = round64 (1999 / 100), qty = Fin 1\<rparr>]\<rparr>)) =
     Some ''$39.97''"
  by (simp add: useCartContext_def Let_def price_sum_catalog num_add_small)

section \<open>Reading twice\<close>

lemma cart_view_second_read:
  assumes "list_all (\<lambda>l. num_finite (sku_number l)) (cart state)"
  shows "cart_view (fst (useCartContext (snd (useCartContext state)))) =
     cart_view (fst (useCartContext state))"
proof -
  have fin: "list_all (\<lambda>l. num_finite (sku_number l)) (sort_key sku_key (cart state))"
    using assms by (simp add: list_all_iff)
  show ?thesis
    by (simp add: cart_view_hook cart_after_hook sort_compare_sku [OF assms] sort_compare_sku [OF fin]
        sort_key_id_if_sorted)
qed

text \<open>
  Claim C8: reading totalItems, totalPrice and the display order twice, with no dispatch in
  between, gives the same results. The first read sorts the stored array, so the second
  read adds the prices up in another order, and binary64 addition depends on the order.
  After ADD of item0001 at 0.005, item0003 at 0.115 and item0002 at 1.005 the first read
  adds 0.005, 0.115 and 1.005 to 1.125 exactly, the text \<^verbatim>\<open>$1.13\<close>; the second read adds
  0.005, 1.005 and 0.115 to the binary64 value just below 1.125, the text \<^verbatim>\<open>$1.12\<close>.
  (For finite keys the display order is the same on both reads: \<open>cart_view_second_read\<close>.)
\<close>

theorem total_price_changes_on_second_read:
  "run initCartState
     [Dispatch \<lparr>type = ADD, payload = Some
        \<lparr>sku = ''item0001'', name = ''Washer'', price = round64 (5 / 1000), qty = Fin 1\<rparr>\<rparr>,
      Dispatch \<lparr>type = ADD, payload = Some
        \<lparr>sku = ''item0003'', name = ''Bolt'', price = round64 (115 / 1000), qty = Fin 1\<rparr>\<rparr>,
      Dispatch \<lparr>type = ADD, payload = Some
        \<lparr>sku = ''item0002'', name = ''Bracket'', price = round64 (1005 / 1000), qty = Fin 1\<rparr>\<rparr>] =
   Inr \<lparr>cart =
      [\<lparr>sku = ''item0001'', name = ''Washer'', price = round64 (5 / 1000), qty = Fin 1\<rparr>,
       \<lparr>sku = ''item0003'', name = ''Bolt'', price = round64 (115 / 1000), qty = Fin 1\<rparr>,
       \<lparr>sku = ''item0002'', name = ''Bracket'', price = round64 (1005 / 1000), qty = Fin 1\<rparr>]\<rparr> \<and>
   totalPrice (fst (useCartContext \<lparr>cart =
      [\<lparr>sku = ''item0001'', name = ''Washer'', price = round64 (5 / 1000), qty = Fin 1\<rparr>,
       \<lparr>sku = ''item0003'', name = ''Bolt'', price = round64 (115 / 1000), qty = Fin 1\<rparr>,
       \<lparr>sku = ''item0002'', name = ''Bracket'', price = round64 (1005 / 1000), qty = Fin 1\<rparr>]\<rparr>)) =
     Some ''$1.13'' \<and>
   totalPrice (fst (useCartContext (snd (useCartContext \<lparr>cart =
      [\<lparr>sku = ''item0001'', name = ''Washer'', price = round64 (5 / 1000), qty = Fin 1\<rparr>,
       \<lparr>sku = ''item0003'', name = ''Bolt'', price = round64 (115 / 1000), qty = Fin 1\<rparr>,
       \<lparr>sku = ''item0002'', name = ''Bracket'', price = round64 (1005 / 1000), qty = Fin 1\<rparr>]\<rparr>)))) =
     Some ''$1.12''"
  by (simp add: initCartState_def reducer_ADD compare_sku_positive sku_number_item
      sku_key_item useCartContext_def Let_def price_sum_unsorted price_sum_sorted)

section \<open>Errors\<close>

text \<open>
  Claim C6: a QUANTITY action with a payload whose sku matches no line of the cart fails
  with the not-found error, the \<^verbatim>\<open>Error\<close> thrown with the message \<^verbatim>\<open>Item must exist in
  order to update quantity\<close>. The reducer returns no state then, and it writes nothing into
  the state it was given: that state stays as it was.
\<close>

theorem quantity_absent_sku_fails:
  assumes "type action = QUANTITY" and "payload action = Some p"
    and "\<forall>item \<in> set (cart state). sku item \<noteq> sku p"
  shows "reducer state action = Inl (Error ''Item must exist in order to update quantity'')"
proof -
  have "find (\<lambda>item. sku item = sku p) (cart state) = None"
    using assms(3) by (simp add: find_None_iff)
  then show ?thesis
    using assms(1,2) by (simp add: reducer_QUANTITY)
qed

theorem quantity_absent_sku_fails_witness:
  "reducer \<lparr>cart = [\<lparr>sku = ''item0001'', name = ''Widget'', price = Fin 1, qty = Fin 1\<rparr>]\<rparr>
     \<lparr>type = QUANTITY,
      payload = Some \<lparr>sku = ''item0002'', name = ''Premium Widget'', price = Fin 2, qty = Fin 5\<rparr>\<rparr> =
   Inl (Error ''Item must exist in order to update quantity'')"
  using quantity_absent_sku_fails
    [of "\<lparr>type = QUANTITY,
      payload = Some \<lparr>sku = ''item0002'', name = ''Premium Widget'', price = Fin 2, qty = Fin 5\<rparr>\<rparr>"
      "\<lparr>sku = ''item0002'', name = ''Premium Widget'', price = Fin 2, qty = Fin 5\<rparr>"
      "\<lparr>cart = [\<lparr>sku = ''item0001'', name = ''Widget'', price = Fin 1, qty = Fin 1\<rparr>]\<rparr>"]
  by simp

text \<open>
  Claim C7: an action whose type is none of ADD, REMOVE, QUANTITY and SUBMIT fails with
  the unrecognised-action error, the \<^verbatim>\<open>Error\<close> thrown with the message \<^verbatim>\<open>Unidentified
  reducer action type\<close>; no state is returned and the given state is not written.
\<close>

theorem unknown_type_fails:
  assumes "type action \<notin> {ADD, REMOVE, QUANTITY, SUBMIT}"
  shows "reducer state action = Inl (Error ''Unidentified reducer action type'')"
  using assms by (simp add: reducer_def)

theorem unknown_type_fails_witness:
  "reducer \<lparr>cart = [\<lparr>sku = ''item0001'', name = ''Widget'', price = Fin 1, qty = Fin 1\<rparr>]\<rparr>
     \<lparr>type = ''UNKNOWN'', payload = None\<rparr> =
   Inl (Error ''Unidentified reducer action type'')"
  by (rule unknown_type_fails) (simp add: ADD_def REMOVE_def QUANTITY_def SUBMIT_def)

section \<open>Updates move a line to the end\<close>

text \<open>
  Claim C10: when the cart has a line of sku \<open>s\<close>, ADD with a payload of sku \<open>s\<close>, and
  QUANTITY for \<open>s\<close>, return the cart without the lines of sku \<open>s\<close>, followed by the updated
  line: for ADD the payload's sku, name and price with the quantity of the first line of
  that sku plus one (a binary64 sum), for QUANTITY that first line with the payload's
  quantity. The updated line is last, whatever its place was.
\<close>

theorem update_moves_line_to_end:
  assumes "s \<in> sku ` set (cart state)" and "sku p = s"
  shows "\<exists>l. find (\<lambda>item. sku item = s) (cart state) = Some l \<and> l \<in> set (cart state) \<and> sku l = s \<and>
     reducer state \<lparr>type = ADD, payload = Some p\<rparr> =
       Inr (state\<lparr>cart := filter (\<lambda>item. sku item \<noteq> s) (cart state) @
         [\<lparr>sku = s, name = name p, price = price p, qty = num_add (qty l) (Fin 1)\<rparr>]\<rparr>) \<and>
     reducer state \<lparr>type = QUANTITY, payload = Some p\<rparr> =
       Inr (state\<lparr>cart := filter (\<lambda>item. sku item \<noteq> s) (cart state) @ [l\<lparr>qty := qty p\<rparr>]\<rparr>)"
proof -
  obtain l where l: "find (\<lambda>item. sku item = s) (cart state) = Some l"
    using assms(1) by (cases "find (\<lambda>item. sku item = s) (cart state)") (auto simp: find_None_iff)
  then have "l \<in> set (cart state)" "sku l = s"
    by (auto dest: find_sku_SomeD)
  then show ?thesis
    using l assms(2) by (simp add: reducer_ADD reducer_QUANTITY)
qed

theorem update_moves_line_to_end_witness:
  "''item0001'' \<in> sku ` set (cart \<lparr>cart =
       [\<lparr>sku = ''item0001'', name = ''Widget'', price = Fin 1, qty = Fin 1\<rparr>,
        \<lparr>sku = ''item0002'', name = ''Premium Widget'', price = Fin 2, qty = Fin 1\<rparr>]\<rparr>) \<and>
   reducer \<lparr>cart =
       [\<lparr>sku = ''item0001'', name = ''Widget'', price = Fin 1, qty = Fin 1\<rparr>,
        \<lparr>sku = ''item0002'', name = ''Premium Widget'', price = Fin 2, qty = Fin 1\<rparr>]\<rparr>
     \<lparr>type = ADD,
      payload = Some \<lparr>sku = ''item0001'', name = ''Widget'', price = Fin 1, qty = Fin 1\<rparr>\<rparr> =
   Inr \<lparr>cart =
       [\<lparr>sku = ''item0002'', name = ''Premium Widget'', price = Fin 2, qty = Fin 1\<rparr>,
        \<lparr>sku = ''item0001'', name = ''Widget'', price = Fin 1, qty = Fin 2\<rparr>]\<rparr> \<and>
   reducer \<lparr>cart =
       [\<lparr>sku = ''item0001'', name = ''Widget'', price = Fin 1, qty = Fin 1\<rparr>,
        \<lparr>sku = ''item0002'', name = ''Premium Widget'', price = Fin 2, qty = Fin 1\<rparr>]\<rparr>
     \<lparr>type = QUANTITY,
      payload = Some \<lparr>sku = ''item0001'', name = ''Widget'', price = Fin 1, qty = Fin 7\<rparr>\<rparr> =
   Inr \<lparr>cart =
       [\<lparr>sku = ''item0002'', name = ''Premium Widget'', price = Fin 2, qty = Fin 1\<rparr>,
        \<lparr>sku = ''item0001'', name = ''Widget'', price = Fin 1, qty = Fin 7\<rparr>]\<rparr>"
  using update_moves_line_to_end
    [of "''item0001''"
      "\<lparr>cart =
       [\<lparr>sku = ''item0001'', name = ''Widget'', price = Fin 1, qty = Fin 1\<rparr>,
        \<lparr>sku = ''item0002'', name = ''Premium Widget'', price = Fin 2, qty = Fin 1\<rparr>]\<rparr>"]
  by (simp add: num_add_small)

end
